theory Spec2Isabelle
  imports Main "HOL-Library.Word"
begin

section \<open>Data model (types.ts)\<close>

text \<open>
  A JavaScript string is a sequence of UTF-16 code units. Kannada letters (U+0C80 to
  U+0CFF) are one code unit each; an emoji beyond U+FFFF is a surrogate pair.
  A JavaScript \<open>number\<close> that counts words, lessons or points is modelled as an
  unbounded integer (the double arithmetic of the source is exact below \<open>2^53\<close>).
\<close>

type_synonym jsstring = "16 word list"

definition js :: "string \<Rightarrow> jsstring" where
  \<comment> \<open>an ASCII literal of the source as code units\<close>
  "js s = map (\<lambda>c. of_nat (of_char c)) s"

record Word =
  kannada :: jsstring
  transliteration :: jsstring
  english :: jsstring
  category :: "jsstring option"

datatype BadgeType = words | lessons | streak

record Badge =
  badge_id :: jsstring
  name :: jsstring
  icon :: jsstring
  description :: jsstring
  unlocked :: bool
  threshold :: int
  badge_type :: BadgeType

record UserProgress =
  points :: int
  streak_days :: int
  lessonsCompleted :: int
  wordsLearned :: int
  badges :: "Badge list"

datatype UserLevel = BEGINNER | INTERMEDIATE | ADVANCED

datatype AppMode = onboarding | dashboard | conversation | lesson

section \<open>Progress ledger, badge evaluation and word bank (App.tsx)\<close>

definition INITIAL_BADGES :: "Badge list" where
  "INITIAL_BADGES =
    [\<lparr>badge_id = js ''1'', name = js ''Rookie'', icon = [0xD83C, 0xDF31],
      description = js ''Learned first 10 words'', unlocked = False, threshold = 10,
      badge_type = words\<rparr>,
     \<lparr>badge_id = js ''2'', name = js ''Chatter'', icon = [0xD83D, 0xDDE3, 0xFE0F],
      description = js ''Sent 10 messages'', unlocked = False, threshold = 10,
      badge_type = streak\<rparr>,
     \<lparr>badge_id = js ''3'', name = js ''Scholar'', icon = [0xD83C, 0xDF93],
      description = js ''Completed 5 lessons'', unlocked = False, threshold = 5,
      badge_type = lessons\<rparr>]"

text \<open>The state held by the \<open>App\<close> component: one field per \<open>useState\<close>.\<close>

record App =
  mode :: AppMode
  level :: UserLevel
  wordBank :: "Word list"
  isWordBankOpen :: bool
  userProgress :: UserProgress

definition initial_App :: App where
  "initial_App =
    \<lparr>mode = onboarding, level = BEGINNER, wordBank = [], isWordBankOpen = False,
     userProgress = \<lparr>points = 0, streak_days = 1, lessonsCompleted = 0, wordsLearned = 0,
                     badges = INITIAL_BADGES\<rparr>\<rparr>"

text \<open>The callback that \<open>checkBadges\<close> maps over the badge list.\<close>

definition checkBadge :: "UserProgress \<Rightarrow> Badge \<Rightarrow> Badge" where
  "checkBadge currentProgress badge =
    (if unlocked badge then badge
     else
       let u0 = False;
           u1 = (if badge_type badge = words \<and> threshold badge \<le> wordsLearned currentProgress
                 then True else u0);
           u2 = (if badge_type badge = lessons \<and> threshold badge \<le> lessonsCompleted currentProgress
                 then True else u1)
       in if u2 then badge\<lparr>unlocked := True\<rparr> else badge)"

definition checkBadges :: "UserProgress \<Rightarrow> Badge list" where
  "checkBadges currentProgress = map (checkBadge currentProgress) (badges currentProgress)"

text \<open>
  \<open>handleUpdateWordBank\<close> passes an updater to \<open>setWordBank\<close>; the updater queues an
  updater for \<open>setUserProgress\<close> when it accepts a word. React applies each updater to the
  latest state, once, in the order queued, so a call is the state transformer below.
\<close>

definition handleUpdateWordBank :: "Word list \<Rightarrow> App \<Rightarrow> App" where
  "handleUpdateWordBank newWords app =
    (let prev = wordBank app;
         existing = set (map kannada prev);
         filtered = filter (\<lambda>w. kannada w \<notin> existing) newWords;
         updated = filtered @ prev;
         app' =
           (if 0 < length filtered then
              let curr = userProgress app;
                  nextWords = wordsLearned curr + int (length filtered);
                  newProgress = curr\<lparr>wordsLearned := nextWords\<rparr>
              in app\<lparr>userProgress := newProgress\<lparr>badges := checkBadges newProgress\<rparr>\<rparr>
            else app)
     in app'\<lparr>wordBank := updated\<rparr>)"

definition handleLessonComplete :: "App \<Rightarrow> App" where
  "handleLessonComplete app =
    (let curr = userProgress app;
         nextLessons = lessonsCompleted curr + 1;
         newProgress = curr\<lparr>points := points curr + 50, lessonsCompleted := nextLessons\<rparr>
     in app\<lparr>userProgress := newProgress\<lparr>badges := checkBadges newProgress\<rparr>,
            mode := dashboard\<rparr>)"

definition handleLevelSelect :: "UserLevel \<Rightarrow> App \<Rightarrow> App" where
  "handleLevelSelect selectedLevel app = app\<lparr>level := selectedLevel, mode := dashboard\<rparr>"

text \<open>
  Every way the rendered tree changes the state of \<open>App\<close>: the two callbacks handed to
  the chat and lesson views, the level buttons, the dashboard's \<open>setMode\<close> and
  \<open>onChangeLevel\<close>, the header's back button and the drawer toggle of the word bank.
\<close>

datatype AppEvent =
    UpdateWordBank "Word list"
  | LessonComplete
  | LevelSelect UserLevel
  | SetMode AppMode
  | ChangeLevel
  | Back
  | SetIsWordBankOpen bool

fun app_step :: "AppEvent \<Rightarrow> App \<Rightarrow> App" where
  "app_step (UpdateWordBank newWords) app = handleUpdateWordBank newWords app"
| "app_step LessonComplete app = handleLessonComplete app"
| "app_step (LevelSelect l) app = handleLevelSelect l app"
| "app_step (SetMode m) app = app\<lparr>mode := m\<rparr>"
| "app_step ChangeLevel app = app\<lparr>mode := onboarding\<rparr>"
| "app_step Back app = app\<lparr>mode := dashboard, isWordBankOpen := False\<rparr>"
| "app_step (SetIsWordBankOpen b) app = app\<lparr>isWordBankOpen := b\<rparr>"

definition run_app :: "AppEvent list \<Rightarrow> App \<Rightarrow> App" where
  "run_app evs app = fold app_step evs app"

text \<open>
  The candidates that the filter of \<open>handleUpdateWordBank\<close> lets through: those whose
  \<open>kannada\<close> value no entry of the bank before the call has. They are compared with
  the bank only, not with each other. \<open>new_to_bank_total\<close> counts them over a sequence
  of calls.
\<close>

definition new_to_bank :: "Word list \<Rightarrow> Word list \<Rightarrow> Word list" where
  "new_to_bank bank candidates =
     filter (\<lambda>w. \<not> list_ex (\<lambda>e. kannada e = kannada w) bank) candidates"

fun new_to_bank_total :: "Word list list \<Rightarrow> App \<Rightarrow> nat" where
  "new_to_bank_total [] app = 0"
| "new_to_bank_total (ws # wss) app =
     length (new_to_bank (wordBank app) ws)
       + new_to_bank_total wss (handleUpdateWordBank ws app)"


text \<open>
  How one ledger update may change one badge: it stays as it is, or a locked badge that
  is not of type \<open>streak\<close> becomes unlocked and keeps every other field.
\<close>

definition badge_step :: "Badge \<Rightarrow> Badge \<Rightarrow> bool" where
  "badge_step b b' \<longleftrightarrow>
     b' = b \<or> (\<not> unlocked b \<and> badge_type b \<noteq> streak \<and> b' = b\<lparr>unlocked := True\<rparr>)"

text \<open>Words of the specification's example scenarios.\<close>

definition word_namaskara :: Word where
  "word_namaskara =
     \<lparr>kannada = [0x0CA8, 0x0CAE, 0x0CB8, 0x0CCD, 0x0C95, 0x0CBE, 0x0CB0],
      transliteration = js ''namaskara'', english = js ''hello'',
      category = Some (js ''Greetings'')\<rparr>"

definition word_hegiddira :: Word where
  "word_hegiddira =
     \<lparr>kannada = [0x0CB9, 0x0CC7, 0x0C97, 0x0CBF, 0x0CA6, 0x0CCD, 0x0CA6, 0x0CC0, 0x0CB0, 0x0CBE],
      transliteration = js ''hegiddira'', english = js ''how are you'',
      category = Some (js ''Greetings'')\<rparr>"

definition word_haudu :: Word where
  "word_haudu =
     \<lparr>kannada = [0x0CB9, 0x0CCC, 0x0CA6, 0x0CC1],
      transliteration = js ''haudu'', english = js ''yes'', category = None\<rparr>"

section \<open>Strings of the runtime\<close>

text \<open>
  \<open>String.prototype.includes\<close>: the pattern occurs in the string as a contiguous run
  of code units.
\<close>

fun startsWith :: "'a list \<Rightarrow> 'a list \<Rightarrow> bool" where
  "startsWith s [] = True"
| "startsWith [] (p # ps) = False"
| "startsWith (c # cs) (p # ps) = (c = p \<and> startsWith cs ps)"

fun str_includes :: "'a list \<Rightarrow> 'a list \<Rightarrow> bool" where
  "str_includes [] pat = startsWith [] pat"
| "str_includes (c # cs) pat = (startsWith (c # cs) pat \<or> str_includes cs pat)"

text \<open>
  \<open>String.prototype.trim\<close> removes the white space and line terminators of ECMAScript
  from both ends: TAB, LF, VT, FF, CR, SPACE, NBSP, U+1680, U+2000 to U+200A, U+2028,
  U+2029, U+202F, U+205F, U+3000 and U+FEFF.
\<close>

definition is_js_whitespace :: "16 word \<Rightarrow> bool" where
  "is_js_whitespace c \<longleftrightarrow>
     (0x0009 \<le> c \<and> c \<le> 0x000D) \<or> c = 0x0020 \<or> c = 0x00A0 \<or> c = 0x1680
     \<or> (0x2000 \<le> c \<and> c \<le> 0x200A) \<or> c = 0x2028 \<or> c = 0x2029 \<or> c = 0x202F
     \<or> c = 0x205F \<or> c = 0x3000 \<or> c = 0xFEFF"

definition trim :: "jsstring \<Rightarrow> jsstring" where
  "trim s = rev (dropWhile is_js_whitespace (rev (dropWhile is_js_whitespace s)))"

text \<open>
  \<open>toLowerCase\<close> and \<open>toUpperCase\<close> are the runtime's Unicode case mappings; the
  functions that use them take them as parameters. On ASCII letters they are the
  mappings below, which leave every other code unit (Kannada has no case) as it is.
\<close>

definition ascii_toLowerCase :: "jsstring \<Rightarrow> jsstring" where
  "ascii_toLowerCase s = map (\<lambda>c. if 0x41 \<le> c \<and> c \<le> 0x5A then c + 0x20 else c) s"

definition ascii_toUpperCase :: "jsstring \<Rightarrow> jsstring" where
  "ascii_toUpperCase s = map (\<lambda>c. if 0x61 \<le> c \<and> c \<le> 0x7A then c - 0x20 else c) s"

text \<open>The regular expression test for a code unit of the Kannada block, U+0C80 to U+0CFF.\<close>

definition has_kannada :: "jsstring \<Rightarrow> bool" where
  "has_kannada s = list_ex (\<lambda>c. 0x0C80 \<le> c \<and> c \<le> 0x0CFF) s"

section \<open>Speech service (services/geminiService.ts)\<close>

subsection \<open>Text normalisation\<close>

text \<open>
  \<open>cleanTextForTTS\<close> applies three global replacements and trims. The first two
  character classes are matched code unit by code unit. The third has the \<open>u\<close> flag,
  so it is matched code point by code point: a high surrogate followed by a low
  surrogate is one code point, every other code unit is a code point of its own value
  (below U+10000, outside the four emoji ranges).
\<close>

definition is_markdown_char :: "16 word \<Rightarrow> bool" where
  \<comment> \<open>the class of asterisk, underscore, backquote and tilde\<close>
  "is_markdown_char c \<longleftrightarrow> c = 0x2A \<or> c = 0x5F \<or> c = 0x60 \<or> c = 0x7E"

definition is_bracket_char :: "16 word \<Rightarrow> bool" where
  \<comment> \<open>the class of braces, square brackets and parentheses\<close>
  "is_bracket_char c \<longleftrightarrow>
     c = 0x7B \<or> c = 0x7D \<or> c = 0x5B \<or> c = 0x5D \<or> c = 0x28 \<or> c = 0x29"

definition is_high_surrogate :: "16 word \<Rightarrow> bool" where
  "is_high_surrogate c \<longleftrightarrow> 0xD800 \<le> c \<and> c \<le> 0xDBFF"

definition is_low_surrogate :: "16 word \<Rightarrow> bool" where
  "is_low_surrogate c \<longleftrightarrow> 0xDC00 \<le> c \<and> c \<le> 0xDFFF"

definition code_point :: "16 word \<Rightarrow> 16 word \<Rightarrow> nat" where
  "code_point h l = (unat h - 0xD800) * 0x400 + (unat l - 0xDC00) + 0x10000"

definition is_emoji :: "nat \<Rightarrow> bool" where
  "is_emoji cp \<longleftrightarrow>
     (0x1F600 \<le> cp \<and> cp \<le> 0x1F64F) \<or> (0x1F300 \<le> cp \<and> cp \<le> 0x1F5FF)
     \<or> (0x1F680 \<le> cp \<and> cp \<le> 0x1F6FF) \<or> (0x1F1E0 \<le> cp \<and> cp \<le> 0x1F1FF)"

fun remove_emoji :: "jsstring \<Rightarrow> jsstring" where
  "remove_emoji [] = []"
| "remove_emoji [c] = [c]"
| "remove_emoji (h # l # rest) =
     (if is_high_surrogate h \<and> is_low_surrogate l then
        (if is_emoji (code_point h l) then remove_emoji rest
         else h # l # remove_emoji rest)
      else h # remove_emoji (l # rest))"

definition cleanTextForTTS :: "jsstring \<Rightarrow> jsstring" where
  "cleanTextForTTS text =
     (if text = [] then []
      else
        let cleaned = filter (\<lambda>c. \<not> is_markdown_char c) text;
            cleaned = filter (\<lambda>c. \<not> is_bracket_char c) cleaned;
            cleaned = remove_emoji cleaned
        in trim cleaned)"

subsection \<open>Audio state\<close>

text \<open>
  The module holds two globals, \<open>currentAudioContext\<close> and \<open>currentSource\<close>. The
  browser side of the audio is kept beside them: the audio contexts that were created
  and not closed, the buffer sources that were started and have neither been stopped
  nor ended (each with the context it was created in; closing a context silences its
  sources), and the utterances queued in \<open>window.speechSynthesis\<close>. Handles are
  numbers handed out in order. \<open>ttsPending\<close> holds the calls of \<open>playAudio\<close>
  suspended at \<open>await ai.models.generateContent\<close>, each with the text it sent;
  \<open>ttsSent\<close> counts the synthesis requests ever sent.
\<close>

record Utterance =
  utt_text :: jsstring
  utt_voice :: "jsstring option"
  utt_lang :: jsstring

record Audio =
  currentAudioContext :: "nat option"
  currentSource :: "nat option"
  openContexts :: "nat list"
  playingSources :: "(nat \<times> nat) list"
  speechQueue :: "Utterance list"
  hasSpeechSynthesis :: bool
  voices :: "jsstring list"
  nextHandle :: nat
  ttsPending :: "(nat \<times> jsstring) list"
  ttsSent :: nat

definition idle_Audio :: "bool \<Rightarrow> jsstring list \<Rightarrow> Audio" where
  \<comment> \<open>the module as loaded, in a browser with or without speech synthesis\<close>
  "idle_Audio speech vs =
     \<lparr>currentAudioContext = None, currentSource = None, openContexts = [],
      playingSources = [], speechQueue = [], hasSpeechSynthesis = speech, voices = vs,
      nextHandle = 0, ttsPending = [], ttsSent = 0\<rparr>"

definition stopAudio :: "Audio \<Rightarrow> Audio" where
  "stopAudio a =
     (let a1 = (case currentSource a of
                  Some s \<Rightarrow>
                    a\<lparr>playingSources := filter (\<lambda>(s', c). s' \<noteq> s) (playingSources a),
                      currentSource := None\<rparr>
                | None \<Rightarrow> a);
          a2 = (case currentAudioContext a1 of
                  Some c \<Rightarrow>
                    a1\<lparr>openContexts := removeAll c (openContexts a1),
                       playingSources := filter (\<lambda>(s', c'). c' \<noteq> c) (playingSources a1),
                       currentAudioContext := None\<rparr>
                | None \<Rightarrow> a1)
      in if hasSpeechSynthesis a2 then a2\<lparr>speechQueue := []\<rparr> else a2)"

definition or_else :: "'a option \<Rightarrow> 'a option \<Rightarrow> 'a option" where
  \<comment> \<open>the operator \<open>||\<close> on the results of \<open>Array.prototype.find\<close>\<close>
  "or_else x y = (case x of Some v \<Rightarrow> Some v | None \<Rightarrow> y)"

definition speakWithBrowser :: "jsstring \<Rightarrow> Audio \<Rightarrow> Audio" where
  "speakWithBrowser text a =
     (if \<not> hasSpeechSynthesis a then a
      else
        let preferredVoice =
              or_else (find (\<lambda>v. v = js ''kn-IN'') (voices a))
             (or_else (find (\<lambda>v. str_includes v (js ''kn'')) (voices a))
             (or_else (find (\<lambda>v. v = js ''hi-IN'') (voices a))
                      (find (\<lambda>v. v = js ''en-IN'') (voices a))));
            isKannada = has_kannada text;
            utterance = \<lparr>utt_text = text, utt_voice = preferredVoice,
                         utt_lang = (if isKannada then js ''kn-IN'' else js ''en-US'')\<rparr>
        in a\<lparr>speechQueue := speechQueue a @ [utterance]\<rparr>)"

subsection \<open>Playing a text\<close>

text \<open>
  \<open>playAudio\<close> is an \<open>async\<close> function. \<open>playAudio_call\<close> is what a call does before it
  returns its promise: it stops the audio, normalises the text and returns when the
  text is empty, falls back to the browser when the text is short and has no Kannada
  letter (the \<open>throw\<close> inside \<open>try\<close>), and otherwise sends the synthesis request and
  suspends. \<open>playAudio_resume\<close> is the continuation that runs when the response of the
  request with the given handle arrives. The four responses are the four ways through
  the rest of the \<open>try\<close> block: the request throws, the response carries no audio data,
  the audio context is created and decoding throws, or the source is created and
  started. No caller in the repository awaits the promise before it may call again.
\<close>

datatype TtsResponse = RequestFails | NoAudioData | DecodeFails | AudioData

definition playAudio_call :: "jsstring \<Rightarrow> Audio \<Rightarrow> Audio" where
  "playAudio_call text a0 =
     (let a = stopAudio a0;
          cleanText = cleanTextForTTS text
      in if cleanText = [] then a
         else if length cleanText < 3 \<and> \<not> has_kannada cleanText
           then speakWithBrowser cleanText a
         else a\<lparr>ttsPending := ttsPending a @ [(nextHandle a, cleanText)],
                nextHandle := nextHandle a + 1, ttsSent := ttsSent a + 1\<rparr>)"

definition playAudio_resume :: "nat \<Rightarrow> TtsResponse \<Rightarrow> Audio \<Rightarrow> Audio" where
  "playAudio_resume r response a0 =
     (case map_of (ttsPending a0) r of
        None \<Rightarrow> a0
      | Some cleanText \<Rightarrow>
          let a = a0\<lparr>ttsPending := filter (\<lambda>(r', t). r' \<noteq> r) (ttsPending a0)\<rparr>
          in (case response of
                RequestFails \<Rightarrow> speakWithBrowser cleanText a
              | NoAudioData \<Rightarrow> speakWithBrowser cleanText a
              | DecodeFails \<Rightarrow>
                  speakWithBrowser cleanText
                    (a\<lparr>currentAudioContext := Some (nextHandle a),
                       openContexts := openContexts a @ [nextHandle a],
                       nextHandle := nextHandle a + 1\<rparr>)
              | AudioData \<Rightarrow>
                  a\<lparr>currentAudioContext := Some (nextHandle a),
                    openContexts := openContexts a @ [nextHandle a],
                    currentSource := Some (nextHandle a + 1),
                    playingSources := playingSources a @ [(nextHandle a + 1, nextHandle a)],
                    nextHandle := nextHandle a + 2\<rparr>))"

definition source_onended :: "nat \<Rightarrow> Audio \<Rightarrow> Audio" where
  \<comment> \<open>a started source ends; its handler \<open>onended\<close> clears the global \<open>currentSource\<close>\<close>
  "source_onended s a =
     a\<lparr>playingSources := filter (\<lambda>(s', c). s' \<noteq> s) (playingSources a),
       currentSource := None\<rparr>"

datatype AudioEvent =
    Play jsstring
  | Stop
  | Response nat TtsResponse
  | Ended nat

fun audio_step :: "AudioEvent \<Rightarrow> Audio \<Rightarrow> Audio" where
  "audio_step (Play text) a = playAudio_call text a"
| "audio_step Stop a = stopAudio a"
| "audio_step (Response r response) a = playAudio_resume r response a"
| "audio_step (Ended s) a = source_onended s a"

definition audio_run :: "AudioEvent list \<Rightarrow> Audio \<Rightarrow> Audio" where
  "audio_run evs a = fold audio_step evs a"

subsection \<open>Answer validation\<close>

text \<open>
  \<open>validateAnswer\<close> first compares locally and calls the remote model only when the
  local comparison fails. The remote call either throws or returns a response whose
  \<open>text\<close> may be undefined. The model returns the verdict together with the prompts
  that were sent to the remote model: none, or one.
\<close>

datatype ValidationResponse = ValidationThrows | ValidationText "jsstring option"

definition validation_prompt :: "jsstring \<Rightarrow> jsstring \<Rightarrow> jsstring" where
  "validation_prompt userAnswer correctAnswer =
     js ''Is the answer '' @ [0x22] @ userAnswer @ [0x22]
     @ js '' effectively correct or close enough for the question expecting ''
     @ [0x22] @ correctAnswer @ [0x22] @ js ''? Reply TRUE or FALSE only.''"

definition validateAnswer ::
  "(jsstring \<Rightarrow> jsstring) \<Rightarrow> (jsstring \<Rightarrow> jsstring) \<Rightarrow> (jsstring \<Rightarrow> ValidationResponse)
     \<Rightarrow> jsstring \<Rightarrow> jsstring \<Rightarrow> bool \<times> jsstring list" where
  "validateAnswer toLowerCase toUpperCase remote userAnswer correctAnswer =
     (if str_includes (toLowerCase userAnswer) (toLowerCase correctAnswer) then (True, [])
      else
        let prompt = validation_prompt userAnswer correctAnswer
        in (case remote prompt of
              ValidationThrows \<Rightarrow> (False, [prompt])
            | ValidationText None \<Rightarrow> (False, [prompt])
            | ValidationText (Some t) \<Rightarrow>
                (str_includes (toUpperCase (trim t)) (js ''TRUE''), [prompt])))"

subsection \<open>Chat request\<close>

datatype Role = user | model

record Message =
  msg_id :: jsstring
  role :: Role
  msg_text :: jsstring
  msg_vocabulary :: "Word list option"
  msg_translation :: "jsstring option"

text \<open>
  The value \<open>chatWithTutor\<close> resolves to, with the fields of its declared return type.
  The request either throws, or its response has no text, or the text does not parse,
  or it parses to a payload.
\<close>

record ChatPayload =
  reply :: jsstring
  translation :: jsstring
  nextQuestion :: jsstring
  vocabulary :: "Word list"

record ChatRequest =
  contents :: "(Role \<times> jsstring) list"
  request_level :: UserLevel

datatype ChatOutcome = ChatRequestThrows | ChatNoText | ChatParseThrows | ChatParsed ChatPayload

definition chatWithTutor ::
  "(ChatRequest \<Rightarrow> ChatOutcome) \<Rightarrow> jsstring \<Rightarrow> (Role \<times> jsstring) list \<Rightarrow> UserLevel
     \<Rightarrow> ChatPayload" where
  "chatWithTutor remote message history lvl =
     (let contents0 = map (\<lambda>h. (fst h, snd h)) history;
          contents1 = contents0 @ [(user, message)]
      in case remote \<lparr>contents = contents1, request_level = lvl\<rparr> of
           ChatParsed payload \<Rightarrow> payload
         | _ \<Rightarrow>
             \<lparr>reply = js ''Kshamisi, connectivity problem.'',
              translation = js ''Sorry, connectivity problem.'',
              nextQuestion = js ''Can you repeat that?'',
              vocabulary = []\<rparr>)"

section \<open>Conversation view (components/ChatInterface.tsx)\<close>

text \<open>
  The view holds the transcript and the processing flag; it reaches the state of \<open>App\<close>
  through \<open>onUpdateWordBank\<close> and the audio through \<open>playAudio\<close>.
\<close>

record ChatInterface =
  messages :: "Message list"
  isProcessing :: bool

record Session =
  ses_chat :: ChatInterface
  ses_app :: App
  ses_audio :: Audio

definition initial_ChatInterface :: ChatInterface where
  "initial_ChatInterface =
     \<lparr>messages =
        [\<lparr>msg_id = js ''init'', role = model,
          msg_text = js ''Namaskara! I am Sneha. Press the mic to talk.'',
          msg_vocabulary = Some [], msg_translation = None\<rparr>],
      isProcessing = False\<rparr>"

fun number_toString :: "nat \<Rightarrow> jsstring" where
  "number_toString n =
     (if n < 10 then [0x30 + of_nat n]
      else number_toString (n div 10) @ [0x30 + of_nat (n mod 10)])"

declare number_toString.simps [simp del]

text \<open>
  \<open>handleVoiceResult\<close> is \<open>async\<close>. Up to \<open>await chatWithTutor\<close> it returns on a blank
  transcript, and otherwise appends the user's message and sets the processing flag;
  the history it will send is the transcript of the render it was created in, without
  the new message. The model returns that history as what the suspended call holds.
  \<open>now\<close> is the value of \<open>Date.now()\<close>.
\<close>

definition handleVoiceResult_call ::
  "nat \<Rightarrow> jsstring \<Rightarrow> Session \<Rightarrow> Session \<times> (Role \<times> jsstring) list option" where
  "handleVoiceResult_call now transcript s =
     (if trim transcript = [] then (s, None)
      else
        let newUserMsg = \<lparr>msg_id = number_toString now, role = user, msg_text = transcript,
                          msg_vocabulary = None, msg_translation = None\<rparr>;
            history = map (\<lambda>m. (role m, msg_text m)) (messages (ses_chat s))
        in (s\<lparr>ses_chat := (ses_chat s)\<lparr>messages := messages (ses_chat s) @ [newUserMsg],
                                         isProcessing := True\<rparr>\<rparr>,
            Some history))"

text \<open>
  The rest of \<open>handleVoiceResult\<close> runs when \<open>chatWithTutor\<close> has resolved.
  \<open>chatWithTutor\<close> catches every failure of the request, and reading the fields of a
  payload does not throw, so the \<open>try\<close> block runs to its end; \<open>finally\<close> clears the
  flag. The call of \<open>playAudio\<close> is not awaited.
\<close>

definition handleVoiceResult_resume ::
  "(ChatRequest \<Rightarrow> ChatOutcome) \<Rightarrow> nat \<Rightarrow> jsstring \<Rightarrow> (Role \<times> jsstring) list \<Rightarrow> Session
     \<Rightarrow> Session" where
  "handleVoiceResult_resume remote now transcript history s =
     (let response = chatWithTutor remote transcript history (level (ses_app s));
          newModelMsg = \<lparr>msg_id = number_toString (now + 1), role = model,
                          msg_text = reply response,
                          msg_vocabulary = Some (vocabulary response),
                          msg_translation = Some (translation response)\<rparr>;
          chat1 = (ses_chat s)\<lparr>messages := messages (ses_chat s) @ [newModelMsg]\<rparr>;
          app1 = (if 0 < length (vocabulary response)
                  then handleUpdateWordBank (vocabulary response) (ses_app s)
                  else ses_app s);
          fullAudioText = reply response @ js '' '' @ nextQuestion response;
          audio1 = playAudio_call fullAudioText (ses_audio s)
      in \<lparr>ses_chat = chat1\<lparr>isProcessing := False\<rparr>, ses_app = app1, ses_audio = audio1\<rparr>)"

definition handleVoiceResult ::
  "(ChatRequest \<Rightarrow> ChatOutcome) \<Rightarrow> nat \<Rightarrow> nat \<Rightarrow> jsstring \<Rightarrow> Session \<Rightarrow> Session" where
  \<comment> \<open>a call and its continuation with nothing in between\<close>
  "handleVoiceResult remote now1 now2 transcript s =
     (case handleVoiceResult_call now1 transcript s of
        (s1, None) \<Rightarrow> s1
      | (s1, Some history) \<Rightarrow> handleVoiceResult_resume remote now2 transcript history s1)"

definition model_messages :: "Session \<Rightarrow> Message list" where
  "model_messages s = filter (\<lambda>m. role m = model) (messages (ses_chat s))"

section \<open>Voice capture (components/VoiceControl.tsx)\<close>

text \<open>
  An error value of the runtime has a name and may have a message. A function that can
  throw returns a sum, \<open>Inl\<close> the error thrown; \<open>try_catch\<close> is \<open>try { ... } catch (e) { ... }\<close>.
\<close>

datatype JsError = JsError (err_name: jsstring) (err_message: "jsstring option")

definition try_catch :: "('e + 'a) \<Rightarrow> ('e \<Rightarrow> 'e + 'a) \<Rightarrow> 'e + 'a" where
  "try_catch body handler = (case body of Inl e \<Rightarrow> handler e | Inr x \<Rightarrow> Inr x)"

text \<open>
  The component holds \<open>isListening\<close> and one recognition object in \<open>recognitionRef\<close>
  (none when the browser has no speech recognition). The recognition engine is kept
  beside them: the sessions it has started and not ended, and whether the running
  session was asked to stop. The transcripts handed to \<open>onResult\<close>, the errors logged,
  the alerts shown and the vibrations are counted as outputs.
\<close>

record VoiceControl =
  isListening :: bool
  hasRecognition :: bool
  hasVibrate :: bool
  activeSessions :: nat
  stopRequested :: bool
  emitted :: "jsstring list"
  consoleErrors :: nat
  alerts :: nat
  vibrations :: nat

definition mounted_VoiceControl :: "bool \<Rightarrow> bool \<Rightarrow> VoiceControl" where
  \<comment> \<open>after the mount effect: an alert when recognition is not supported\<close>
  "mounted_VoiceControl supported vibrate =
     \<lparr>isListening = False, hasRecognition = supported, hasVibrate = vibrate,
      activeSessions = 0, stopRequested = False, emitted = [], consoleErrors = 0,
      alerts = (if supported then 0 else 1), vibrations = 0\<rparr>"

text \<open>
  The engine's \<open>start\<close> throws \<open>InvalidStateError\<close> when a session is running, may throw
  for a reason of its own (\<open>fault\<close>), and otherwise starts a session. Its \<open>stop\<close> asks a
  running session to finish and is ignored when none runs.
\<close>

definition recognition_start :: "JsError option \<Rightarrow> VoiceControl \<Rightarrow> JsError + VoiceControl" where
  "recognition_start fault v =
     (if 0 < activeSessions v
        then Inl (JsError (js ''InvalidStateError'') (Some (js ''recognition has already started'')))
      else (case fault of
              Some e \<Rightarrow> Inl e
            | None \<Rightarrow> Inr (v\<lparr>activeSessions := activeSessions v + 1, stopRequested := False\<rparr>)))"

definition recognition_stop :: "VoiceControl \<Rightarrow> JsError + VoiceControl" where
  "recognition_stop v = Inr (if 0 < activeSessions v then v\<lparr>stopRequested := True\<rparr> else v)"

definition startListening ::
  "JsError option \<Rightarrow> VoiceControl \<times> Audio \<Rightarrow> JsError + VoiceControl \<times> Audio" where
  "startListening fault va =
     (let v = fst va; a = stopAudio (snd va)
      in if hasRecognition v then
           if isListening v then Inr (v, a)
           else
             try_catch
               (case recognition_start fault v of
                  Inl e \<Rightarrow> Inl e
                | Inr v1 \<Rightarrow>
                    Inr (v1\<lparr>isListening := True,
                            vibrations := (if hasVibrate v1 then vibrations v1 + 1
                                           else vibrations v1)\<rparr>, a))
               (\<lambda>e. if err_name e = js ''InvalidStateError''
                        \<or> (case err_message e of
                              Some m \<Rightarrow> str_includes m (js ''already started'')
                            | None \<Rightarrow> False)
                     then Inr (v\<lparr>isListening := True\<rparr>, a)
                     else Inr (v\<lparr>consoleErrors := consoleErrors v + 1\<rparr>, a))
         else Inr (v, a))"

definition stopListening :: "VoiceControl \<times> Audio \<Rightarrow> JsError + VoiceControl \<times> Audio" where
  "stopListening va =
     (let v = fst va; a = snd va
      in if hasRecognition v then
           try_catch
             (case recognition_stop v of Inl e \<Rightarrow> Inl e | Inr v1 \<Rightarrow> Inr (v1, a))
             (\<lambda>e. Inr (v, a))
         else Inr (v, a))"

text \<open>The handlers \<open>onresult\<close>, \<open>onend\<close> and \<open>onerror\<close> of the recognition object.\<close>

definition recognition_onresult :: "jsstring \<Rightarrow> VoiceControl \<Rightarrow> VoiceControl" where
  "recognition_onresult transcript v = v\<lparr>emitted := emitted v @ [transcript]\<rparr>"

definition recognition_onend :: "VoiceControl \<Rightarrow> VoiceControl" where
  \<comment> \<open>the running session has ended; the handler clears the flag\<close>
  "recognition_onend v =
     v\<lparr>activeSessions := activeSessions v - 1, stopRequested := False, isListening := False\<rparr>"

definition recognition_onerror :: "jsstring \<Rightarrow> VoiceControl \<Rightarrow> VoiceControl" where
  "recognition_onerror code v =
     (if code = js ''no-speech'' \<or> code = js ''aborted'' then v\<lparr>isListening := False\<rparr>
      else
        let v1 = v\<lparr>consoleErrors := consoleErrors v + 1, isListening := False\<rparr>
        in if code = js ''not-allowed'' then v1\<lparr>alerts := alerts v1 + 1\<rparr> else v1)"

datatype VoiceEvent =
    Press "JsError option"
  | Release
  | RecResult jsstring
  | RecEnd
  | RecError jsstring

fun voice_step :: "VoiceEvent \<Rightarrow> VoiceControl \<times> Audio \<Rightarrow> JsError + VoiceControl \<times> Audio" where
  "voice_step (Press fault) va = startListening fault va"
| "voice_step Release va = stopListening va"
| "voice_step (RecResult transcript) va = Inr (recognition_onresult transcript (fst va), snd va)"
| "voice_step RecEnd va = Inr (recognition_onend (fst va), snd va)"
| "voice_step (RecError code) va = Inr (recognition_onerror code (fst va), snd va)"

fun voice_run ::
  "VoiceEvent list \<Rightarrow> VoiceControl \<times> Audio \<Rightarrow> JsError + VoiceControl \<times> Audio" where
  "voice_run [] va = Inr va"
| "voice_run (ev # evs) va =
     (case voice_step ev va of Inl e \<Rightarrow> Inl e | Inr va' \<Rightarrow> voice_run evs va')"

section \<open>Predicates and states used in the statements\<close>

text \<open>A chat request has failed when it did not produce a parsed payload.\<close>

fun chat_failed :: "ChatOutcome \<Rightarrow> bool" where
  "chat_failed (ChatParsed payload) = False"
| "chat_failed outcome = True"

text \<open>
  The model message that \<open>handleVoiceResult\<close> builds from the fallback payload of
  \<open>chatWithTutor\<close>.
\<close>

definition apology_Message :: "nat \<Rightarrow> Message" where
  "apology_Message now =
     \<lparr>msg_id = number_toString (now + 1), role = model,
      msg_text = js ''Kshamisi, connectivity problem.'',
      msg_vocabulary = Some [], msg_translation = Some (js ''Sorry, connectivity problem.'')\<rparr>"

definition initial_Session :: Session where
  "initial_Session =
     \<lparr>ses_chat = initial_ChatInterface, ses_app = initial_App, ses_audio = idle_Audio True []\<rparr>"

text \<open>
  The audio after one text was played to the point where its source has started, and
  after two calls of \<open>playAudio\<close> of which the second was made before the first
  synthesis response arrived.
\<close>

definition playing_Audio :: Audio where
  "playing_Audio =
     audio_run [Play (kannada word_namaskara), Response 0 AudioData] (idle_Audio True [])"

definition overlapping_Audio :: Audio where
  "overlapping_Audio =
     audio_run [Play (kannada word_namaskara), Play (kannada word_haudu),
                Response 0 AudioData, Response 1 AudioData] (idle_Audio True [])"

text \<open>
  A sequence of audio events is sequential when no call of \<open>playAudio\<close> is made while
  another call is suspended at its synthesis request.
\<close>

fun sequential :: "AudioEvent list \<Rightarrow> Audio \<Rightarrow> bool" where
  "sequential [] a = True"
| "sequential (ev # evs) a =
     ((case ev of Play text \<Rightarrow> ttsPending a = [] | _ \<Rightarrow> True)
      \<and> sequential evs (audio_step ev a))"

text \<open>
  The single-slot discipline: at most one open audio context, and it is the one the
  module holds; at most one playing source, in that context, and then no utterance
  queued; at most one utterance; and nothing open, playing or queued while a call is
  suspended.
\<close>

definition single_slot :: "Audio \<Rightarrow> bool" where
  "single_slot a \<longleftrightarrow>
     (case openContexts a of
        [] \<Rightarrow> True
      | [c] \<Rightarrow> currentAudioContext a = Some c
      | _ \<Rightarrow> False)
     \<and> (case playingSources a of
          [] \<Rightarrow> True
        | [sc] \<Rightarrow> currentAudioContext a = Some (snd sc) \<and> speechQueue a = []
        | _ \<Rightarrow> False)
     \<and> length (speechQueue a) \<le> 1
     \<and> (case ttsPending a of
          [] \<Rightarrow> True
        | [rt] \<Rightarrow> openContexts a = [] \<and> playingSources a = [] \<and> speechQueue a = []
        | _ \<Rightarrow> False)
     \<and> (hasSpeechSynthesis a \<or> speechQueue a = [])"

text \<open>The voice control after one press on a browser with recognition and vibration.\<close>

definition listening_VoiceControl :: VoiceControl where
  "listening_VoiceControl =
     (mounted_VoiceControl True True)\<lparr>isListening := True, activeSessions := 1,
                                      vibrations := 1\<rparr>"

section \<open>Properties of the ledger and the word bank\<close>

subsection \<open>Badges\<close>

lemma length_checkBadges: "length (checkBadges p) = length (badges p)"
  by (simp add: checkBadges_def)

lemma badge_step_refl: "badge_step b b"
  by (simp add: badge_step_def)

lemma badge_step_trans: "badge_step a b \<Longrightarrow> badge_step b c \<Longrightarrow> badge_step a c"
  by (auto simp: badge_step_def)

lemma badge_step_checkBadge: "badge_step b (checkBadge p b)"
  by (auto simp: badge_step_def checkBadge_def Let_def)

lemma badges_step_same: "list_all2 badge_step bs bs"
  by (simp add: list_all2_conv_all_nth badge_step_refl)

lemma badges_handleUpdateWordBank:
  "list_all2 badge_step (badges (userProgress app))
     (badges (userProgress (handleUpdateWordBank newWords app)))"
  by (simp add: handleUpdateWordBank_def Let_def checkBadges_def list_all2_conv_all_nth
      badge_step_checkBadge badge_step_refl)

lemma badges_handleLessonComplete:
  "list_all2 badge_step (badges (userProgress app))
     (badges (userProgress (handleLessonComplete app)))"
  by (simp add: handleLessonComplete_def Let_def checkBadges_def list_all2_conv_all_nth
      badge_step_checkBadge)

lemma badges_app_step:
  "list_all2 badge_step (badges (userProgress app)) (badges (userProgress (app_step ev app)))"
  by (cases ev)
    (simp_all add: badges_handleUpdateWordBank badges_handleLessonComplete handleLevelSelect_def
      badges_step_same)

lemma badges_run_app:
  "list_all2 badge_step (badges (userProgress app)) (badges (userProgress (run_app evs app)))"
proof (induction evs arbitrary: app)
  case Nil
  show ?case by (simp add: run_app_def badges_step_same)
next
  case (Cons ev evs)
  have "list_all2 badge_step (badges (userProgress app)) (badges (userProgress (app_step ev app)))"
    by (rule badges_app_step)
  moreover have "list_all2 badge_step (badges (userProgress (app_step ev app)))
      (badges (userProgress (run_app evs (app_step ev app))))"
    by (rule Cons.IH)
  ultimately have "list_all2 badge_step (badges (userProgress app))
      (badges (userProgress (run_app evs (app_step ev app))))"
    by (rule list_all2_trans[rotated]) (rule badge_step_trans)
  then show ?case by (simp add: run_app_def)
qed

lemma run_app_append: "run_app (evs1 @ evs2) app = run_app evs2 (run_app evs1 app)"
  by (simp add: run_app_def)

lemma checkBadge_locked:
  "\<not> unlocked b \<Longrightarrow>
   checkBadge p b = b\<lparr>unlocked :=
      (badge_type b = words \<and> threshold b \<le> wordsLearned p) \<or>
      (badge_type b = lessons \<and> threshold b \<le> lessonsCompleted p)\<rparr>"
  by (auto simp: checkBadge_def Let_def)

text \<open>
  C5. Badge unlocking is monotone. Take any state the application has reached (after the
  events \<open>evs1\<close>) and any badge, by its position \<open>i\<close> in the ledger, that is unlocked there.
  After any further events \<open>evs2\<close> (word additions, lesson completions and every other
  event of the application) the ledger has as many badges as before, and the badge at
  position \<open>i\<close> is still unlocked; it is in fact the very same badge.
\<close>

theorem badge_unlock_monotone:
  assumes "i < length (badges (userProgress (run_app evs1 app)))"
    and "unlocked (badges (userProgress (run_app evs1 app)) ! i)"
  shows "length (badges (userProgress (run_app (evs1 @ evs2) app)))
           = length (badges (userProgress (run_app evs1 app)))
       \<and> unlocked (badges (userProgress (run_app (evs1 @ evs2) app)) ! i)
       \<and> badges (userProgress (run_app (evs1 @ evs2) app)) ! i
           = badges (userProgress (run_app evs1 app)) ! i"
proof -
  let ?old = "badges (userProgress (run_app evs1 app))"
  let ?new = "badges (userProgress (run_app (evs1 @ evs2) app))"
  have all2: "list_all2 badge_step ?old ?new"
    unfolding run_app_append by (rule badges_run_app)
  then have len: "length ?new = length ?old"
    by (simp add: list_all2_lengthD)
  from all2 assms(1) have "badge_step (?old ! i) (?new ! i)"
    by (rule list_all2_nthD)
  with assms(2) have "?new ! i = ?old ! i"
    by (simp add: badge_step_def)
  with len assms(2) show ?thesis by simp
qed

text \<open>
  Five completed lessons unlock Scholar (position 2 of the initial badges); a word
  addition and a sixth lesson leave it unlocked.
\<close>

theorem badge_unlock_monotone_witness:
  "2 < length (badges (userProgress (run_app
       [LessonComplete, LessonComplete, LessonComplete, LessonComplete, LessonComplete]
       initial_App)))
   \<and> unlocked (badges (userProgress (run_app
       [LessonComplete, LessonComplete, LessonComplete, LessonComplete, LessonComplete]
       initial_App)) ! 2)
   \<and> unlocked (badges (userProgress (run_app
       ([LessonComplete, LessonComplete, LessonComplete, LessonComplete, LessonComplete]
          @ [UpdateWordBank [word_haudu], LessonComplete])
       initial_App)) ! 2)"
proof -
  let ?evs1 = "[LessonComplete, LessonComplete, LessonComplete, LessonComplete, LessonComplete]"
  have h1: "2 < length (badges (userProgress (run_app ?evs1 initial_App)))"
    by (simp add: run_app_def handleLessonComplete_def Let_def length_checkBadges
        initial_App_def INITIAL_BADGES_def)
  have h2: "unlocked (badges (userProgress (run_app ?evs1 initial_App)) ! 2)"
    by (simp add: run_app_def handleLessonComplete_def Let_def checkBadges_def checkBadge_def
        initial_App_def INITIAL_BADGES_def)
  from badge_unlock_monotone [OF h1 h2, of "[UpdateWordBank [word_haudu], LessonComplete]"]
    h1 h2
  show ?thesis by simp
qed

text \<open>
  C6. Badge evaluation is idempotent: evaluating the badges of a ledger whose badge list
  is already the result of an evaluation on the same counters changes nothing.
\<close>

theorem checkBadges_idempotent:
  "checkBadges (p\<lparr>badges := checkBadges p\<rparr>) = checkBadges p"
  by (simp add: checkBadges_def checkBadge_def Let_def)

text \<open>
  C7. For a locked badge at position \<open>i\<close> of a ledger, evaluation unlocks it iff it is of
  type \<open>words\<close> and \<open>wordsLearned\<close> has reached its threshold, or of type \<open>lessons\<close> and
  \<open>lessonsCompleted\<close> has reached its threshold. A badge of type \<open>streak\<close> that is locked
  stays locked, at the same position and of the same type, after every sequence of
  events of the application.
\<close>

theorem badge_unlock_criterion:
  "(i < length (badges p) \<and> \<not> unlocked (badges p ! i) \<longrightarrow>
      (unlocked (checkBadges p ! i) \<longleftrightarrow>
         (badge_type (badges p ! i) = words \<and> threshold (badges p ! i) \<le> wordsLearned p) \<or>
         (badge_type (badges p ! i) = lessons \<and> threshold (badges p ! i) \<le> lessonsCompleted p)))
   \<and> (j < length (badges (userProgress app))
        \<and> badge_type (badges (userProgress app) ! j) = streak
        \<and> \<not> unlocked (badges (userProgress app) ! j) \<longrightarrow>
      j < length (badges (userProgress (run_app evs app)))
        \<and> badge_type (badges (userProgress (run_app evs app)) ! j) = streak
        \<and> \<not> unlocked (badges (userProgress (run_app evs app)) ! j))"
proof (intro conjI impI)
  assume a: "i < length (badges p) \<and> \<not> unlocked (badges p ! i)"
  then have "checkBadges p ! i = checkBadge p (badges p ! i)"
    by (simp add: checkBadges_def)
  with a show "unlocked (checkBadges p ! i) \<longleftrightarrow>
         (badge_type (badges p ! i) = words \<and> threshold (badges p ! i) \<le> wordsLearned p) \<or>
         (badge_type (badges p ! i) = lessons \<and> threshold (badges p ! i) \<le> lessonsCompleted p)"
    by (simp add: checkBadge_locked)
next
  let ?old = "badges (userProgress app)"
  let ?new = "badges (userProgress (run_app evs app))"
  assume a: "j < length ?old \<and> badge_type (?old ! j) = streak \<and> \<not> unlocked (?old ! j)"
  have all2: "list_all2 badge_step ?old ?new"
    by (rule badges_run_app)
  then have len: "length ?new = length ?old"
    by (simp add: list_all2_lengthD)
  from all2 a have "badge_step (?old ! j) (?new ! j)"
    by (simp add: list_all2_nthD)
  with a have same: "?new ! j = ?old ! j"
    by (simp add: badge_step_def)
  from a len show "j < length ?new" by simp
  from a same show "badge_type (?new ! j) = streak" by simp
  from a same show "\<not> unlocked (?new ! j)" by simp
qed

text \<open>
  With ten words learned, evaluation unlocks Rookie (position 0, threshold 10); Chatter
  (position 1, type \<open>streak\<close>) is locked after a word addition and a lesson.
\<close>

theorem badge_unlock_criterion_witness:
  "unlocked (checkBadges \<lparr>points = 0, streak_days = 1, lessonsCompleted = 0, wordsLearned = 10,
                          badges = INITIAL_BADGES\<rparr> ! 0)
   \<and> badge_type (badges (userProgress initial_App) ! 1) = streak
   \<and> \<not> unlocked (badges (userProgress
          (run_app [UpdateWordBank [word_haudu], LessonComplete] initial_App)) ! 1)"
  using badge_unlock_criterion [of 0
      "\<lparr>points = 0, streak_days = 1, lessonsCompleted = 0, wordsLearned = 10,
        badges = INITIAL_BADGES\<rparr>"
      1 initial_App "[UpdateWordBank [word_haudu], LessonComplete]"]
  by (simp add: initial_App_def INITIAL_BADGES_def)

subsection \<open>Lessons and points\<close>

lemma handleLessonComplete_progress:
  "lessonsCompleted (userProgress (handleLessonComplete app))
     = lessonsCompleted (userProgress app) + 1"
  "points (userProgress (handleLessonComplete app)) = points (userProgress app) + 50"
  by (simp_all add: handleLessonComplete_def Let_def)

lemma handleUpdateWordBank_points:
  "points (userProgress (handleUpdateWordBank ws app)) = points (userProgress app)"
  by (simp add: handleUpdateWordBank_def Let_def)

lemma app_step_points: "points (userProgress app) \<le> points (userProgress (app_step ev app))"
  by (cases ev) (simp_all add: handleLessonComplete_progress handleUpdateWordBank_points
      handleLevelSelect_def)

lemma run_app_points: "points (userProgress app) \<le> points (userProgress (run_app evs app))"
proof (induction evs arbitrary: app)
  case Nil
  show ?case by (simp add: run_app_def)
next
  case (Cons ev evs)
  have "points (userProgress app) \<le> points (userProgress (app_step ev app))"
    by (rule app_step_points)
  also have "\<dots> \<le> points (userProgress (run_app evs (app_step ev app)))"
    by (rule Cons.IH)
  finally show ?case by (simp add: run_app_def)
qed

text \<open>
  C4. From every state, \<open>N\<close> calls of \<open>handleLessonComplete\<close> raise \<open>lessonsCompleted\<close> by
  exactly \<open>N\<close> and \<open>points\<close> by exactly \<open>50 * N\<close>; and no event of the application, and no
  sequence of events, lowers \<open>points\<close>.
\<close>

theorem applyLessonComplete_N_times:
  "lessonsCompleted (userProgress ((handleLessonComplete ^^ N) app))
      = lessonsCompleted (userProgress app) + int N
   \<and> points (userProgress ((handleLessonComplete ^^ N) app))
      = points (userProgress app) + 50 * int N
   \<and> points (userProgress app) \<le> points (userProgress (app_step ev app))
   \<and> points (userProgress app) \<le> points (userProgress (run_app evs app))"
proof -
  have "lessonsCompleted (userProgress ((handleLessonComplete ^^ N) app))
      = lessonsCompleted (userProgress app) + int N
   \<and> points (userProgress ((handleLessonComplete ^^ N) app))
      = points (userProgress app) + 50 * int N"
    by (induction N) (simp_all add: handleLessonComplete_progress)
  then show ?thesis
    using app_step_points run_app_points by blast
qed

subsection \<open>Word bank\<close>

lemma new_to_bank_filter:
  "new_to_bank bank ws = filter (\<lambda>w. kannada w \<notin> set (map kannada bank)) ws"
  unfolding new_to_bank_def by (rule filter_cong) (auto simp: list_ex_iff image_iff)

lemma wordBank_handleUpdateWordBank:
  "wordBank (handleUpdateWordBank ws app) = new_to_bank (wordBank app) ws @ wordBank app"
  by (simp add: handleUpdateWordBank_def Let_def new_to_bank_filter)

lemma wordsLearned_handleUpdateWordBank:
  "wordsLearned (userProgress (handleUpdateWordBank ws app))
     = wordsLearned (userProgress app) + int (length (new_to_bank (wordBank app) ws))"
  by (simp add: handleUpdateWordBank_def Let_def new_to_bank_filter)

lemma wordsLearned_fold:
  "wordsLearned (userProgress (fold handleUpdateWordBank wss app))
     = wordsLearned (userProgress app) + int (new_to_bank_total wss app)"
  by (induction wss arbitrary: app) (simp_all add: wordsLearned_handleUpdateWordBank)

lemma length_wordBank_fold:
  "length (wordBank (fold handleUpdateWordBank wss app))
     = length (wordBank app) + new_to_bank_total wss app"
  by (induction wss arbitrary: app) (simp_all add: wordBank_handleUpdateWordBank)

lemma distinct_handleUpdateWordBank:
  assumes "distinct (map kannada ws)" and "distinct (map kannada (wordBank app))"
  shows "distinct (map kannada (wordBank (handleUpdateWordBank ws app)))"
proof -
  have "distinct (map kannada (new_to_bank (wordBank app) ws))"
    unfolding new_to_bank_filter using assms(1) by (rule distinct_map_filter)
  moreover have "set (map kannada (new_to_bank (wordBank app) ws))
      \<inter> set (map kannada (wordBank app)) = {}"
    by (auto simp: new_to_bank_filter)
  ultimately show ?thesis
    using assms(2) by (simp add: wordBank_handleUpdateWordBank)
qed

lemma distinct_fold:
  "\<forall>ws \<in> set wss. distinct (map kannada ws) \<Longrightarrow> distinct (map kannada (wordBank app)) \<Longrightarrow>
   distinct (map kannada (wordBank (fold handleUpdateWordBank wss app)))"
  by (induction wss arbitrary: app) (simp_all add: distinct_handleUpdateWordBank)

text \<open>
  What the filter does guarantee. One call puts the candidates that are new to the bank
  in front of it, in their order, and raises \<open>wordsLearned\<close> by their number. When no
  candidate list holds a \<open>kannada\<close> value twice, a bank without repeated values stays
  without them.
\<close>

lemma word_bank_without_repeats:
  "wordBank (handleUpdateWordBank ws app) = new_to_bank (wordBank app) ws @ wordBank app
   \<and> wordsLearned (userProgress (fold handleUpdateWordBank wss app))
       = wordsLearned (userProgress app) + int (new_to_bank_total wss app)
   \<and> length (wordBank (fold handleUpdateWordBank wss app))
       = length (wordBank app) + new_to_bank_total wss app
   \<and> ((\<forall>ws \<in> set wss. distinct (map kannada ws)) \<and> distinct (map kannada (wordBank app)) \<longrightarrow>
        distinct (map kannada (wordBank (fold handleUpdateWordBank wss app))))"
  using wordBank_handleUpdateWordBank wordsLearned_fold length_wordBank_fold distinct_fold
  by blast

text \<open>
  The specification's scenarios 1 and 5: two new words, then \<open>haudu\<close> twice in two calls.
  The second \<open>haudu\<close> is not added; three words are learned and the bank has three
  entries with three different \<open>kannada\<close> values.
\<close>

lemma word_bank_scenarios:
  "wordBank (fold handleUpdateWordBank
        [[word_namaskara, word_hegiddira], [word_haudu], [word_haudu]] initial_App)
     = [word_haudu, word_namaskara, word_hegiddira]
   \<and> wordsLearned (userProgress (fold handleUpdateWordBank
        [[word_namaskara, word_hegiddira], [word_haudu], [word_haudu]] initial_App)) = 3
   \<and> distinct (map kannada (wordBank (fold handleUpdateWordBank
        [[word_namaskara, word_hegiddira], [word_haudu], [word_haudu]] initial_App)))"
  using word_bank_without_repeats [of "[word_haudu]" initial_App
       "[[word_namaskara, word_hegiddira], [word_haudu], [word_haudu]]"]
  by (simp add: new_to_bank_def initial_App_def word_namaskara_def word_hegiddira_def
      word_haudu_def wordBank_handleUpdateWordBank)

lemma ten_haudu:
  "handleUpdateWordBank
      [word_haudu, word_haudu, word_haudu, word_haudu, word_haudu,
       word_haudu, word_haudu, word_haudu, word_haudu, word_haudu] initial_App
   = initial_App
       \<lparr>userProgress := (userProgress initial_App)
           \<lparr>wordsLearned := 10,
            badges := checkBadges ((userProgress initial_App)\<lparr>wordsLearned := 10\<rparr>)\<rparr>,
        wordBank := [word_haudu, word_haudu, word_haudu, word_haudu, word_haudu,
                     word_haudu, word_haudu, word_haudu, word_haudu, word_haudu]\<rparr>"
  by (simp add: handleUpdateWordBank_def Let_def initial_App_def)

text \<open>
  C1 fails on the code. \<open>handleUpdateWordBank\<close> removes the candidates whose \<open>kannada\<close>
  value is in the bank, but it compares a candidate with the bank before the call only
  and never with the other candidates of the same call. The candidate list with
  \<open>haudu\<close> twice, on the empty bank, puts two entries with the same \<open>kannada\<close> value
  into the bank and counts two words learned for one word; the list with \<open>haudu\<close> ten
  times counts ten words and unlocks Rookie.
\<close>

theorem word_bank_repeated_candidate:
  "wordBank (handleUpdateWordBank [word_haudu, word_haudu] initial_App)
     = [word_haudu, word_haudu]
   \<and> \<not> distinct (map kannada
         (wordBank (handleUpdateWordBank [word_haudu, word_haudu] initial_App)))
   \<and> wordsLearned (userProgress (handleUpdateWordBank [word_haudu, word_haudu] initial_App))
       = 2
   \<and> wordsLearned (userProgress (handleUpdateWordBank
         [word_haudu, word_haudu, word_haudu, word_haudu, word_haudu,
          word_haudu, word_haudu, word_haudu, word_haudu, word_haudu] initial_App)) = 10
   \<and> unlocked (badges (userProgress (handleUpdateWordBank
         [word_haudu, word_haudu, word_haudu, word_haudu, word_haudu,
          word_haudu, word_haudu, word_haudu, word_haudu, word_haudu] initial_App)) ! 0)"
proof -
  have two: "handleUpdateWordBank [word_haudu, word_haudu] initial_App
      = initial_App
          \<lparr>userProgress := (userProgress initial_App)
              \<lparr>wordsLearned := 2,
               badges := checkBadges ((userProgress initial_App)\<lparr>wordsLearned := 2\<rparr>)\<rparr>,
           wordBank := [word_haudu, word_haudu]\<rparr>"
    by (simp add: handleUpdateWordBank_def Let_def initial_App_def)
  have rookie: "unlocked (checkBadges ((userProgress initial_App)\<lparr>wordsLearned := 10\<rparr>) ! 0)"
    by (simp add: checkBadges_def checkBadge_def Let_def initial_App_def INITIAL_BADGES_def)
  show ?thesis
    unfolding two ten_haudu using rookie by simp
qed

section \<open>Properties of the speech service\<close>

subsection \<open>Substrings\<close>

lemma startsWith_iff: "startsWith s pat \<longleftrightarrow> (\<exists>ss. s = pat @ ss)"
  by (induction s pat rule: startsWith.induct) auto

lemma str_includes_iff: "str_includes s pat \<longleftrightarrow> (\<exists>ps ss. s = ps @ pat @ ss)"
proof (induction s)
  case Nil
  show ?case by (cases pat) auto
next
  case (Cons c cs)
  show ?case
  proof
    assume "str_includes (c # cs) pat"
    then consider "startsWith (c # cs) pat" | "str_includes cs pat" by auto
    then show "\<exists>ps ss. c # cs = ps @ pat @ ss"
    proof cases
      case 1
      then obtain ss where "c # cs = pat @ ss" by (auto simp: startsWith_iff)
      then have "c # cs = [] @ pat @ ss" by simp
      then show ?thesis by blast
    next
      case 2
      with Cons.IH obtain ps ss where "cs = ps @ pat @ ss" by auto
      then have "c # cs = (c # ps) @ pat @ ss" by simp
      then show ?thesis by blast
    qed
  next
    assume "\<exists>ps ss. c # cs = ps @ pat @ ss"
    then obtain ps ss where eq: "c # cs = ps @ pat @ ss" by auto
    show "str_includes (c # cs) pat"
    proof (cases ps)
      case Nil
      with eq have "startsWith (c # cs) pat" by (auto simp: startsWith_iff)
      then show ?thesis by simp
    next
      case (Cons p ps')
      with eq have "cs = ps' @ pat @ ss" by simp
      with Cons.IH have "str_includes cs pat" by blast
      then show ?thesis by simp
    qed
  qed
qed

lemma str_includes_self: "str_includes s s"
proof -
  have "s = [] @ s @ []" by simp
  then show ?thesis unfolding str_includes_iff by blast
qed

subsection \<open>Answer validation\<close>

text \<open>
  C9. When the lowercased answer contains the lowercased correct answer as a substring,
  \<open>validateAnswer\<close> returns true and sends nothing to the remote model; in particular
  when the answer is the correct answer itself. When the local check fails and the
  remote call throws, or its response has no text, \<open>validateAnswer\<close> returns false
  (after the one remote call). The case mappings of the runtime are parameters.
\<close>

theorem validateAnswer_local_then_remote:
  "((\<exists>ps ss. toLowerCase userAnswer = ps @ toLowerCase correctAnswer @ ss) \<longrightarrow>
      validateAnswer toLowerCase toUpperCase remote userAnswer correctAnswer = (True, []))
   \<and> validateAnswer toLowerCase toUpperCase remote correctAnswer correctAnswer = (True, [])
   \<and> (\<not> (\<exists>ps ss. toLowerCase userAnswer = ps @ toLowerCase correctAnswer @ ss)
        \<and> (remote (validation_prompt userAnswer correctAnswer) = ValidationThrows
            \<or> remote (validation_prompt userAnswer correctAnswer) = ValidationText None) \<longrightarrow>
      validateAnswer toLowerCase toUpperCase remote userAnswer correctAnswer
        = (False, [validation_prompt userAnswer correctAnswer]))"
  unfolding str_includes_iff [symmetric]
  by (auto simp: validateAnswer_def str_includes_self Let_def)

text \<open>
  The specification's scenario 3 (\<open>haudu\<close> in Kannada script against itself), an answer
  that contains the correct one in another case, and a wrong answer with a remote call
  that throws.
\<close>

theorem validateAnswer_local_then_remote_witness:
  "validateAnswer ascii_toLowerCase ascii_toUpperCase (\<lambda>p. ValidationThrows)
      (kannada word_haudu) (kannada word_haudu) = (True, [])
   \<and> validateAnswer ascii_toLowerCase ascii_toUpperCase (\<lambda>p. ValidationThrows)
      (js ''Haudu, sir'') (js ''haudu'') = (True, [])
   \<and> validateAnswer ascii_toLowerCase ascii_toUpperCase (\<lambda>p. ValidationThrows)
      (js ''illa'') (js ''haudu'') = (False, [validation_prompt (js ''illa'') (js ''haudu'')])"
proof -
  have "str_includes (ascii_toLowerCase (js ''Haudu, sir'')) (ascii_toLowerCase (js ''haudu''))"
    by (simp add: ascii_toLowerCase_def js_def)
  then have h1: "\<exists>ps ss. ascii_toLowerCase (js ''Haudu, sir'')
      = ps @ ascii_toLowerCase (js ''haudu'') @ ss"
    by (simp add: str_includes_iff)
  have "\<not> str_includes (ascii_toLowerCase (js ''illa'')) (ascii_toLowerCase (js ''haudu''))"
    by (simp add: ascii_toLowerCase_def js_def)
  then have h2: "\<not> (\<exists>ps ss. ascii_toLowerCase (js ''illa'')
      = ps @ ascii_toLowerCase (js ''haudu'') @ ss)"
    by (simp add: str_includes_iff)
  from validateAnswer_local_then_remote
         [of ascii_toLowerCase "js ''Haudu, sir''" "js ''haudu''" ascii_toUpperCase
            "\<lambda>p. ValidationThrows"]
       h1
  have r1: "validateAnswer ascii_toLowerCase ascii_toUpperCase (\<lambda>p. ValidationThrows)
      (js ''Haudu, sir'') (js ''haudu'') = (True, [])"
    by simp
  from validateAnswer_local_then_remote
         [of ascii_toLowerCase "js ''illa''" "js ''haudu''" ascii_toUpperCase
            "\<lambda>p. ValidationThrows"]
       h2
  have r2: "validateAnswer ascii_toLowerCase ascii_toUpperCase (\<lambda>p. ValidationThrows)
      (js ''illa'') (js ''haudu'') = (False, [validation_prompt (js ''illa'') (js ''haudu'')])"
    by simp
  from validateAnswer_local_then_remote
         [of ascii_toLowerCase "kannada word_haudu" "kannada word_haudu" ascii_toUpperCase
            "\<lambda>p. ValidationThrows"]
  have r3: "validateAnswer ascii_toLowerCase ascii_toUpperCase (\<lambda>p. ValidationThrows)
      (kannada word_haudu) (kannada word_haudu) = (True, [])"
    by simp
  from r1 r2 r3 show ?thesis by blast
qed

subsection \<open>Text normalisation on sample texts\<close>

lemmas clean_defs = cleanTextForTTS_def is_markdown_char_def is_bracket_char_def
  is_high_surrogate_def is_low_surrogate_def code_point_def is_emoji_def trim_def
  is_js_whitespace_def

lemma clean_namaskara: "cleanTextForTTS (kannada word_namaskara) = kannada word_namaskara"
  by (simp add: clean_defs word_namaskara_def)

lemma clean_haudu: "cleanTextForTTS (kannada word_haudu) = kannada word_haudu"
  by (simp add: clean_defs word_haudu_def)

lemma clean_stars: "cleanTextForTTS (js ''**'') = []"
  by (simp add: clean_defs js_def)

text \<open>An asterisk, a space, the emoji U+1F600, a space and an underscore.\<close>

lemma clean_emoji: "cleanTextForTTS [0x2A, 0x20, 0xD83D, 0xDE00, 0x20, 0x5F] = []"
  by (simp add: clean_defs)

lemma kannada_namaskara: "has_kannada (kannada word_namaskara)" "kannada word_namaskara \<noteq> []"
  by (simp_all add: has_kannada_def word_namaskara_def)

lemma kannada_haudu: "has_kannada (kannada word_haudu)" "kannada word_haudu \<noteq> []"
  by (simp_all add: has_kannada_def word_haudu_def)

subsection \<open>Stopping and playing\<close>

lemma stopAudio_requests:
  "ttsSent (stopAudio a) = ttsSent a" "ttsPending (stopAudio a) = ttsPending a"
  "nextHandle (stopAudio a) = nextHandle a"
  "hasSpeechSynthesis (stopAudio a) = hasSpeechSynthesis a"
  "voices (stopAudio a) = voices a"
  by (simp_all add: stopAudio_def Let_def split: option.splits)

lemma stopAudio_released:
  "currentSource (stopAudio a) = None" "currentAudioContext (stopAudio a) = None"
  by (simp_all add: stopAudio_def Let_def split: option.splits)

lemma stopAudio_speechQueue:
  "speechQueue (stopAudio a) = (if hasSpeechSynthesis a then [] else speechQueue a)"
  by (simp add: stopAudio_def Let_def split: option.splits)

lemma stopAudio_idle:
  "currentSource a = None \<Longrightarrow> currentAudioContext a = None \<Longrightarrow> speechQueue a = [] \<Longrightarrow>
   stopAudio a = a"
  by (simp add: stopAudio_def Let_def)

lemma playAudio_call_send:
  "cleanTextForTTS text \<noteq> [] \<Longrightarrow> has_kannada (cleanTextForTTS text) \<Longrightarrow>
   playAudio_call text a =
     (stopAudio a)\<lparr>ttsPending := ttsPending a @ [(nextHandle a, cleanTextForTTS text)],
                   nextHandle := nextHandle a + 1, ttsSent := ttsSent a + 1\<rparr>"
  by (simp add: playAudio_call_def Let_def stopAudio_requests)

lemma playing_Audio_eq:
  "playing_Audio =
     \<lparr>currentAudioContext = Some 1, currentSource = Some 2, openContexts = [1],
      playingSources = [(2, 1)], speechQueue = [], hasSpeechSynthesis = True, voices = [],
      nextHandle = 3, ttsPending = [], ttsSent = 1\<rparr>"
  unfolding playing_Audio_def audio_run_def
  by (simp add: playAudio_call_send clean_namaskara kannada_namaskara)
     (simp add: playAudio_resume_def stopAudio_def idle_Audio_def)

lemma overlapping_Audio_eq:
  "overlapping_Audio =
     \<lparr>currentAudioContext = Some 4, currentSource = Some 5, openContexts = [2, 4],
      playingSources = [(3, 2), (5, 4)], speechQueue = [], hasSpeechSynthesis = True,
      voices = [], nextHandle = 6, ttsPending = [], ttsSent = 2\<rparr>"
  unfolding overlapping_Audio_def audio_run_def
  by (simp add: playAudio_call_send clean_namaskara clean_haudu kannada_namaskara
        kannada_haudu stopAudio_requests)
     (simp add: playAudio_resume_def stopAudio_def idle_Audio_def)

text \<open>
  C3, as the claim states it, fails: \<open>playAudio\<close> calls \<open>stopAudio\<close> before it looks at
  the text. The text of two asterisks normalises to the empty string, and playing it
  while a source plays stops that source and closes its audio context.
\<close>

theorem playAudio_empty_text_counterexample:
  "cleanTextForTTS (js ''**'') = [] \<and> playAudio_call (js ''**'') playing_Audio \<noteq> playing_Audio"
  by (simp add: clean_stars playAudio_call_def Let_def playing_Audio_eq stopAudio_def)

text \<open>
  C3, amended. For every text whose normalisation is the empty string, a call of
  \<open>playAudio\<close> does what \<open>stopAudio\<close> does and nothing else: it sends no synthesis
  request and leaves none pending, it queues no utterance for the browser's speech
  synthesis (the queue is cancelled where the browser has one), and it leaves the
  audio state unchanged when the module holds no source and no audio context and no
  utterance is queued.
\<close>

theorem playAudio_empty_text:
  assumes "cleanTextForTTS text = []"
  shows "playAudio_call text a = stopAudio a
       \<and> ttsSent (playAudio_call text a) = ttsSent a
       \<and> ttsPending (playAudio_call text a) = ttsPending a
       \<and> speechQueue (playAudio_call text a)
           = (if hasSpeechSynthesis a then [] else speechQueue a)
       \<and> (currentSource a = None \<and> currentAudioContext a = None \<and> speechQueue a = [] \<longrightarrow>
            playAudio_call text a = a)"
  using assms
  by (simp add: playAudio_call_def Let_def stopAudio_requests stopAudio_speechQueue
      stopAudio_idle)

theorem playAudio_empty_text_witness:
  "cleanTextForTTS [0x2A, 0x20, 0xD83D, 0xDE00, 0x20, 0x5F] = []
   \<and> playAudio_call [0x2A, 0x20, 0xD83D, 0xDE00, 0x20, 0x5F] playing_Audio
       = stopAudio playing_Audio
   \<and> ttsSent (playAudio_call [0x2A, 0x20, 0xD83D, 0xDE00, 0x20, 0x5F] playing_Audio)
       = ttsSent playing_Audio
   \<and> playAudio_call [0x2A, 0x20, 0xD83D, 0xDE00, 0x20, 0x5F] (idle_Audio True [])
       = idle_Audio True []"
proof -
  have idle: "currentSource (idle_Audio True []) = None
      \<and> currentAudioContext (idle_Audio True []) = None \<and> speechQueue (idle_Audio True []) = []"
    by (simp add: idle_Audio_def)
  from playAudio_empty_text [OF clean_emoji, of playing_Audio]
       playAudio_empty_text [OF clean_emoji, of "idle_Audio True []"] idle clean_emoji
  show ?thesis by blast
qed

subsection \<open>The single slot\<close>

text \<open>
  C8 holds on the code when no call of \<open>playAudio\<close> overlaps another: from a state in
  the single-slot discipline, every sequential run of plays, stops, synthesis responses
  and ended sources stays in it.
\<close>

lemma single_slot_iff:
  "single_slot a \<longleftrightarrow>
     (openContexts a = [] \<or> (\<exists>c. openContexts a = [c] \<and> currentAudioContext a = Some c))
     \<and> (playingSources a = []
          \<or> (\<exists>s c. playingSources a = [(s, c)] \<and> currentAudioContext a = Some c
                \<and> speechQueue a = []))
     \<and> length (speechQueue a) \<le> 1
     \<and> (ttsPending a = []
          \<or> (\<exists>r t. ttsPending a = [(r, t)] \<and> openContexts a = [] \<and> playingSources a = []
                \<and> speechQueue a = []))
     \<and> (\<not> hasSpeechSynthesis a \<longrightarrow> speechQueue a = [])"
proof -
  have o: "(case openContexts a of [] \<Rightarrow> True | [c] \<Rightarrow> currentAudioContext a = Some c
            | _ \<Rightarrow> False)
       \<longleftrightarrow> openContexts a = [] \<or> (\<exists>c. openContexts a = [c] \<and> currentAudioContext a = Some c)"
    by (auto split: list.splits)
  have p: "(case playingSources a of [] \<Rightarrow> True
            | [sc] \<Rightarrow> currentAudioContext a = Some (snd sc) \<and> speechQueue a = []
            | _ \<Rightarrow> False)
       \<longleftrightarrow> playingSources a = []
          \<or> (\<exists>s c. playingSources a = [(s, c)] \<and> currentAudioContext a = Some c
                \<and> speechQueue a = [])"
    by (auto split: list.splits)
  have t: "(case ttsPending a of [] \<Rightarrow> True
            | [rt] \<Rightarrow> openContexts a = [] \<and> playingSources a = [] \<and> speechQueue a = []
            | _ \<Rightarrow> False)
       \<longleftrightarrow> ttsPending a = []
          \<or> (\<exists>r t. ttsPending a = [(r, t)] \<and> openContexts a = [] \<and> playingSources a = []
                \<and> speechQueue a = [])"
    by (auto split: list.splits)
  show ?thesis
    unfolding single_slot_def o p t by auto
qed

lemma stopAudio_clears:
  assumes "single_slot a"
  shows "openContexts (stopAudio a) = []" "playingSources (stopAudio a) = []"
    "speechQueue (stopAudio a) = []"
  using assms
  by (auto simp: single_slot_iff stopAudio_def Let_def split: option.splits if_splits)

lemma single_slot_stopAudio:
  assumes "single_slot a"
  shows "single_slot (stopAudio a)"
proof -
  note clr = stopAudio_clears [OF assms]
  from assms have "ttsPending a = [] \<or> (\<exists>r t. ttsPending a = [(r, t)])"
    by (auto simp: single_slot_iff)
  then show ?thesis
    by (auto simp: single_slot_iff clr stopAudio_requests stopAudio_released)
qed

lemma speakWithBrowser_fields:
  "openContexts (speakWithBrowser t a) = openContexts a"
  "playingSources (speakWithBrowser t a) = playingSources a"
  "currentAudioContext (speakWithBrowser t a) = currentAudioContext a"
  "ttsPending (speakWithBrowser t a) = ttsPending a"
  "hasSpeechSynthesis (speakWithBrowser t a) = hasSpeechSynthesis a"
  "length (speechQueue (speakWithBrowser t a))
     = (if hasSpeechSynthesis a then length (speechQueue a) + 1 else length (speechQueue a))"
  by (simp_all add: speakWithBrowser_def Let_def)

lemma speechQueue_speakWithBrowser_off:
  "\<not> hasSpeechSynthesis a \<Longrightarrow> speechQueue (speakWithBrowser t a) = speechQueue a"
  by (simp add: speakWithBrowser_def)

lemma single_slot_playAudio_call:
  assumes "single_slot a" and "ttsPending a = []"
  shows "single_slot (playAudio_call text a)"
proof -
  have clr: "openContexts (stopAudio a) = []" "playingSources (stopAudio a) = []"
    "speechQueue (stopAudio a) = []"
    using assms(1) by (rule stopAudio_clears)+
  show ?thesis
    using assms(2) clr
    by (cases "hasSpeechSynthesis a")
       (simp_all add: playAudio_call_def Let_def single_slot_iff stopAudio_requests
          stopAudio_released speakWithBrowser_fields speechQueue_speakWithBrowser_off)
qed

lemma single_slot_playAudio_resume:
  assumes "single_slot a"
  shows "single_slot (playAudio_resume r response a)"
proof (cases "map_of (ttsPending a) r")
  case None
  with assms show ?thesis by (simp add: playAudio_resume_def)
next
  case (Some t)
  then have ne: "ttsPending a \<noteq> []" by auto
  with assms obtain r' t' where p: "ttsPending a = [(r', t')]" "openContexts a = []"
    "playingSources a = []" "speechQueue a = []"
    by (auto simp: single_slot_iff)
  with Some have r: "r' = r" by (simp split: if_splits)
  show ?thesis
    using Some p r
    by (cases response; cases "hasSpeechSynthesis a")
       (simp_all add: playAudio_resume_def Let_def single_slot_iff speakWithBrowser_fields
          speechQueue_speakWithBrowser_off)
qed

lemma single_slot_source_onended:
  assumes "single_slot a"
  shows "single_slot (source_onended s a)"
proof -
  consider "playingSources a = []"
    | s' c where "playingSources a = [(s', c)]" "currentAudioContext a = Some c"
        "speechQueue a = []"
    using assms by (auto simp: single_slot_iff)
  then show ?thesis
  proof cases
    case 1
    with assms show ?thesis by (simp add: single_slot_iff source_onended_def)
  next
    case 2
    with assms show ?thesis
      by (cases "s' = s") (simp_all add: single_slot_iff source_onended_def)
  qed
qed

lemma single_slot_step:
  "single_slot a \<Longrightarrow> (case ev of Play text \<Rightarrow> ttsPending a = [] | _ \<Rightarrow> True) \<Longrightarrow>
   single_slot (audio_step ev a)"
  by (cases ev)
     (simp_all add: single_slot_playAudio_call single_slot_stopAudio
        single_slot_playAudio_resume single_slot_source_onended)

lemma single_slot_run:
  "single_slot a \<Longrightarrow> sequential evs a \<Longrightarrow> single_slot (audio_run evs a)"
  unfolding audio_run_def
  by (induction evs arbitrary: a) (simp_all add: single_slot_step)

lemma single_slot_idle: "single_slot (idle_Audio speech vs)"
  by (simp add: single_slot_def idle_Audio_def)

lemma sequential_play_single_slot:
  assumes "single_slot a" and "sequential evs a"
  shows "length (playingSources (audio_run evs a)) + length (speechQueue (audio_run evs a)) \<le> 1"
    and "length (openContexts (audio_run evs a)) \<le> 1"
    and "set (openContexts (audio_run evs a))
           \<subseteq> set_option (currentAudioContext (audio_run evs a))"
  using single_slot_run [OF assms] by (auto simp: single_slot_iff)

text \<open>
  C8 fails on the code when two calls overlap. \<open>playAudio\<close> stops the audio before it
  awaits the synthesis response and takes the new audio context and source after it,
  without stopping again. Two calls made one after the other, both answered with audio
  afterwards, leave two sources playing in two open audio contexts. The module holds
  only the second pair; \<open>stopAudio\<close> afterwards stops and closes only that pair, and the
  first source (handle 3) keeps playing in the first context (handle 2), which nothing
  can close any more.
\<close>

theorem overlapping_play_two_sources:
  "playingSources overlapping_Audio = [(3, 2), (5, 4)]
   \<and> openContexts overlapping_Audio = [2, 4]
   \<and> currentAudioContext overlapping_Audio = Some 4
   \<and> currentSource overlapping_Audio = Some 5
   \<and> playingSources (stopAudio overlapping_Audio) = [(3, 2)]
   \<and> openContexts (stopAudio overlapping_Audio) = [2]"
  by (simp add: overlapping_Audio_eq stopAudio_def)

section \<open>Properties of the conversation view\<close>

lemma chatWithTutor_failed:
  "chat_failed (remote \<lparr>contents = history @ [(user, message)], request_level = lvl\<rparr>) \<Longrightarrow>
   chatWithTutor remote message history lvl =
     \<lparr>reply = js ''Kshamisi, connectivity problem.'',
      translation = js ''Sorry, connectivity problem.'',
      nextQuestion = js ''Can you repeat that?'', vocabulary = []\<rparr>"
  by (cases "remote \<lparr>contents = history @ [(user, message)], request_level = lvl\<rparr>")
     (simp_all add: chatWithTutor_def Let_def)

lemma trim_hi: "trim (js ''hi'') \<noteq> []"
  by (simp add: trim_def js_def is_js_whitespace_def)

text \<open>
  C2, as the claim states it, fails: \<open>chatWithTutor\<close> catches the failure of the request
  and resolves to a fallback payload, which \<open>handleVoiceResult\<close> appends to the
  transcript as a model message like any other reply.
\<close>

theorem chat_failure_counterexample:
  "model_messages
      (handleVoiceResult (\<lambda>request. ChatRequestThrows) 0 0 (js ''hi'') initial_Session)
     \<noteq> model_messages initial_Session"
  by (simp add: handleVoiceResult_def handleVoiceResult_call_def handleVoiceResult_resume_def
      chatWithTutor_def Let_def model_messages_def trim_hi initial_Session_def
      initial_ChatInterface_def)

text \<open>
  C2, amended. When the chat request fails (it throws, its response has no text, or
  the text does not parse) on a transcript that is not blank, the view appends the
  user's message and exactly one model message, the apology of the fallback payload
  with an empty vocabulary; the state of \<open>App\<close> (the ledger with its points, counters
  and badges, and the word bank) is unchanged; the processing flag is cleared; and the
  apology with its follow-up question is handed to \<open>playAudio\<close>.
\<close>

theorem chat_failure_effect:
  assumes "trim transcript \<noteq> []" and "\<And>request. chat_failed (remote request)"
  shows "messages (ses_chat (handleVoiceResult remote now1 now2 transcript s))
           = messages (ses_chat s)
             @ [\<lparr>msg_id = number_toString now1, role = user, msg_text = transcript,
                 msg_vocabulary = None, msg_translation = None\<rparr>,
                apology_Message now2]
       \<and> model_messages (handleVoiceResult remote now1 now2 transcript s)
           = model_messages s @ [apology_Message now2]
       \<and> ses_app (handleVoiceResult remote now1 now2 transcript s) = ses_app s
       \<and> isProcessing (ses_chat (handleVoiceResult remote now1 now2 transcript s)) = False
       \<and> ses_audio (handleVoiceResult remote now1 now2 transcript s)
           = playAudio_call
               (js ''Kshamisi, connectivity problem.'' @ js '' '' @ js ''Can you repeat that?'')
               (ses_audio s)"
  using assms
  by (simp add: handleVoiceResult_def handleVoiceResult_call_def handleVoiceResult_resume_def
      chatWithTutor_failed Let_def model_messages_def apology_Message_def)

theorem chat_failure_effect_witness:
  "trim (js ''hi'') \<noteq> []
   \<and> model_messages (handleVoiceResult (\<lambda>request. ChatNoText) 41 42 (js ''hi'') initial_Session)
       = model_messages initial_Session @ [apology_Message 42]
   \<and> userProgress (ses_app
        (handleVoiceResult (\<lambda>request. ChatNoText) 41 42 (js ''hi'') initial_Session))
       = userProgress initial_App
   \<and> isProcessing (ses_chat
        (handleVoiceResult (\<lambda>request. ChatNoText) 41 42 (js ''hi'') initial_Session)) = False"
  using chat_failure_effect [of "js ''hi''" "\<lambda>request. ChatNoText" 41 42 initial_Session]
    trim_hi
  by (simp add: initial_Session_def)

section \<open>Properties of the voice capture\<close>

lemma startListening_returns: "\<exists>v' a'. startListening fault (v, a) = Inr (v', a')"
  by (auto simp: startListening_def Let_def try_catch_def recognition_start_def
      split: sum.splits option.splits)

lemma startListening_sessions:
  "startListening fault (v, a) = Inr (v', a') \<Longrightarrow> activeSessions v \<le> 1 \<Longrightarrow>
   activeSessions v' \<le> 1"
  by (auto simp: startListening_def Let_def try_catch_def recognition_start_def
      split: sum.splits option.splits if_splits)

lemma stopListening_returns:
  "\<exists>v'. stopListening (v, a) = Inr (v', a) \<and> activeSessions v' = activeSessions v
      \<and> isListening v' = isListening v"
  by (auto simp: stopListening_def Let_def try_catch_def recognition_stop_def)

lemma voice_step_returns:
  assumes "activeSessions v \<le> 1"
  shows "\<exists>v' a'. voice_step ev (v, a) = Inr (v', a') \<and> activeSessions v' \<le> 1"
proof (cases ev)
  case (Press fault)
  obtain v' a' where r: "startListening fault (v, a) = Inr (v', a')"
    using startListening_returns by blast
  from r assms have "activeSessions v' \<le> 1" by (rule startListening_sessions)
  with r Press show ?thesis by simp
next
  case Release
  with assms stopListening_returns [of v a] show ?thesis by auto
next
  case (RecResult t)
  with assms show ?thesis by (simp add: recognition_onresult_def)
next
  case RecEnd
  with assms show ?thesis by (simp add: recognition_onend_def)
next
  case (RecError code)
  with assms show ?thesis by (simp add: recognition_onerror_def Let_def)
qed

lemma voice_run_returns:
  "activeSessions v \<le> 1 \<Longrightarrow>
   \<exists>v' a'. voice_run evs (v, a) = Inr (v', a') \<and> activeSessions v' \<le> 1"
proof (induction evs arbitrary: v a)
  case Nil
  then show ?case by simp
next
  case (Cons ev evs)
  from voice_step_returns [OF Cons.prems, of ev a]
  obtain v1 a1 where s: "voice_step ev (v, a) = Inr (v1, a1)" "activeSessions v1 \<le> 1"
    by blast
  from Cons.IH [OF s(2), of a1] s(1) show ?case by simp
qed

text \<open>
  C10. A start request while \<open>isListening\<close> is set returns without an error and leaves
  the voice control as it is (the audio is stopped first, as on every press). A stop
  request while the control is idle (the flag clear, no session running) returns
  without an error and changes nothing. No start or stop request ever raises an error,
  and a stop request never changes the flag. From a state with at most one running
  recognition session, every sequence of presses, releases and recognition events runs
  without an error and ends with at most one running session.
\<close>

theorem voice_control_guards:
  "(isListening v \<longrightarrow> startListening fault (v, a) = Inr (v, stopAudio a))
   \<and> (\<not> isListening v \<and> activeSessions v = 0 \<longrightarrow> stopListening (v, a) = Inr (v, a))
   \<and> (\<exists>v' a'. startListening fault (v, a) = Inr (v', a'))
   \<and> (\<exists>v'. stopListening (v, a) = Inr (v', a) \<and> isListening v' = isListening v)
   \<and> (activeSessions v \<le> 1 \<longrightarrow>
        (\<exists>v' a'. voice_run evs (v, a) = Inr (v', a') \<and> activeSessions v' \<le> 1))"
proof (intro conjI impI)
  assume "isListening v"
  then show "startListening fault (v, a) = Inr (v, stopAudio a)"
    by (simp add: startListening_def Let_def)
next
  assume "\<not> isListening v \<and> activeSessions v = 0"
  then show "stopListening (v, a) = Inr (v, a)"
    by (simp add: stopListening_def Let_def try_catch_def recognition_stop_def)
next
  show "\<exists>v' a'. startListening fault (v, a) = Inr (v', a')"
    by (rule startListening_returns)
next
  show "\<exists>v'. stopListening (v, a) = Inr (v', a) \<and> isListening v' = isListening v"
    using stopListening_returns [of v a] by blast
next
  assume "activeSessions v \<le> 1"
  then show "\<exists>v' a'. voice_run evs (v, a) = Inr (v', a') \<and> activeSessions v' \<le> 1"
    by (rule voice_run_returns)
qed

text \<open>
  A press while listening, with a source playing; a release on the freshly mounted
  control; and a run with a second press during the session and a release after it.
\<close>

theorem voice_control_guards_witness:
  "isListening listening_VoiceControl
   \<and> startListening None (listening_VoiceControl, playing_Audio)
       = Inr (listening_VoiceControl, stopAudio playing_Audio)
   \<and> stopListening (mounted_VoiceControl True True, idle_Audio True [])
       = Inr (mounted_VoiceControl True True, idle_Audio True [])
   \<and> (\<exists>v' a'. voice_run
          [Press None, Press None, Release, RecResult (js ''hi''), RecEnd, Release]
          (mounted_VoiceControl True True, idle_Audio True []) = Inr (v', a')
        \<and> activeSessions v' \<le> 1)"
proof -
  have h1: "isListening listening_VoiceControl"
    by (simp add: listening_VoiceControl_def)
  have h2: "\<not> isListening (mounted_VoiceControl True True)
      \<and> activeSessions (mounted_VoiceControl True True) = 0"
    by (simp add: mounted_VoiceControl_def)
  have h3: "activeSessions (mounted_VoiceControl True True) \<le> 1"
    by (simp add: mounted_VoiceControl_def)
  from voice_control_guards [of listening_VoiceControl None playing_Audio] h1
  have r1: "startListening None (listening_VoiceControl, playing_Audio)
       = Inr (listening_VoiceControl, stopAudio playing_Audio)"
    by blast
  from voice_control_guards [of "mounted_VoiceControl True True" None "idle_Audio True []"
        "[Press None, Press None, Release, RecResult (js ''hi''), RecEnd, Release]"] h2 h3
  have r2: "stopListening (mounted_VoiceControl True True, idle_Audio True [])
       = Inr (mounted_VoiceControl True True, idle_Audio True [])"
    and r3: "\<exists>v' a'. voice_run
          [Press None, Press None, Release, RecResult (js ''hi''), RecEnd, Release]
          (mounted_VoiceControl True True, idle_Audio True []) = Inr (v', a')
        \<and> activeSessions v' \<le> 1"
    by blast+
  from h1 r1 r2 r3 show ?thesis by blast
qed


end
